theory Spec2Isabelle
  imports Main "HOL-Library.Sublist"
begin

section \<open>Documents: positions and ranges\<close>

text \<open>
  Modelled from the spec: the class \<open>Position\<close> (\<open>core/documents/Position\<close>) is imported
  by \<open>Range\<close> but is not among the sources. The spec describes it as
  "(row, column) zero-based; equality and ordering are structural".
\<close>

record Position =
  row :: nat
  column :: nat

text \<open>
  Modelled from the spec: \<open>Position.isEqualTo\<close>, called by \<open>Range.isEmpty\<close>, is the
  structural equality of the spec ("equality ... structural").
\<close>

definition Position_isEqualTo :: "Position \<Rightarrow> Position \<Rightarrow> bool" where
  "Position_isEqualTo this otherPosition \<longleftrightarrow>
     row this = row otherPosition \<and> column this = column otherPosition"


text \<open>
  The class \<open>Range\<close>: two read-only positions set by the constructor. The field \<open>end\<close> is
  written \<open>end'\<close>.
\<close>

record Range =
  start :: Position
  end' :: Position

text \<open>\<open>isEmpty(): return this.start.isEqualTo(this.end)\<close>\<close>

definition Range_isEmpty :: "Range \<Rightarrow> bool" where
  "Range_isEmpty this = Position_isEqualTo (start this) (end' this)"

text \<open>\<open>static fromSinglePosition(position): return new Range(position, position)\<close>\<close>

definition Range_fromSinglePosition :: "Position \<Rightarrow> Range" where
  "Range_fromSinglePosition position = \<lparr>start = position, end' = position\<rparr>"


section \<open>Languages\<close>

text \<open>
  The interface \<open>Language\<close>. The field \<open>id\<close> is written \<open>id'\<close>; the optional \<open>parser\<close> is
  an option over a type of parsers that stays abstract.
\<close>

record 'parser Language =
  name :: string
  id' :: string
  codeEditorLanguageId :: string
  parser :: "'parser option"

text \<open>
  \<open>PYTHON_LANGUAGE\<close> is the one language constant found in the sources. Its parser is
  \<open>new PythonParser()\<close>, an object of a class that is not among the sources: a parameter.
\<close>

definition PYTHON_LANGUAGE :: "'parser \<Rightarrow> 'parser Language" where
  "PYTHON_LANGUAGE pythonParser =
     \<lparr>name = ''Python (subset)'', id' = ''python'', codeEditorLanguageId = ''python'',
      parser = Some pythonParser\<rparr>"

text \<open>
  \<open>SUPPORTED_LANGUAGES\<close> lists six constants in this order. The five other than
  \<open>PYTHON_LANGUAGE\<close> are defined in files that are not among the sources: parameters.
\<close>

definition SUPPORTED_LANGUAGES ::
  "'parser Language \<Rightarrow> 'parser Language \<Rightarrow> 'parser Language \<Rightarrow> 'parser Language \<Rightarrow>
   'parser \<Rightarrow> 'parser Language \<Rightarrow> 'parser Language list" where
  "SUPPORTED_LANGUAGES TYPESCRIPT_LANGUAGE MATHEMATICS_LANGUAGE JSON_LANGUAGE CSS_LANGUAGE
     pythonParser PLAIN_TEXT_LANGUAGE =
     [TYPESCRIPT_LANGUAGE, MATHEMATICS_LANGUAGE, JSON_LANGUAGE, CSS_LANGUAGE,
      PYTHON_LANGUAGE pythonParser, PLAIN_TEXT_LANGUAGE]"

text \<open>
  \<open>getLanguageWithId(id): return SUPPORTED_LANGUAGES.find(language => language.id === id) ?? null\<close>.
  The table is the first argument; \<open>null\<close> is \<open>None\<close>. \<open>Array.prototype.find\<close> returns the
  first element that satisfies the test, as \<open>List.find\<close> does.
\<close>

definition getLanguageWithId :: "'parser Language list \<Rightarrow> string \<Rightarrow> 'parser Language option" where
  "getLanguageWithId supportedLanguages i = find (\<lambda>language. id' language = i) supportedLanguages"

section \<open>Documents\<close>

text \<open>
  The class \<open>Document\<close> is not among the sources; its two fields are the constructor's
  arguments, \<open>new Document(language, content)\<close>, read back as \<open>document.language\<close> and
  \<open>document.content\<close>.
\<close>

record 'parser Document =
  language :: "'parser Language"
  content :: string

text \<open>
  Modelled from the spec: the getter \<open>Document.isEmpty\<close>, the emptiness test that the spec
  lists among the operations of a Document: the content has no character.
\<close>

definition Document_isEmpty :: "'parser Document \<Rightarrow> bool" where
  "Document_isEmpty this \<longleftrightarrow> content this = []"

section \<open>Regular expression matches\<close>

text \<open>
  The classes of \<open>utilities/RegexMatcher\<close> are not among the sources. A group of a match is
  read by \<open>RegexPatternTemplate\<close> through \<open>group.name\<close>, \<open>group.value\<close> and \<open>group.range\<close>
  (written \<open>value'\<close> and \<open>range'\<close>).
\<close>

record RegexMatchGroup =
  name :: string
  value' :: string
  range' :: Range

text \<open>
  Modelled from the spec: a match. \<open>RegexPatternTemplate\<close> reads \<open>match.groups\<close>, the list
  of its groups; the two offsets stand for what the spec calls "the overall matched
  Range", and the groups are, in the words of the spec, "every named group that
  participated in that match".
\<close>

record RegexMatch =
  startOffset :: nat
  endOffset :: nat
  groups :: "RegexMatchGroup list"

text \<open>
  The regular expression engine of the platform, a parameter: for a pattern, a text and a
  scan position it returns nothing when the pattern has no match that starts at or after
  the position, and otherwise the distance from the position to the start of the leftmost
  such match, the length of the match and its named groups.
\<close>

type_synonym RegexEngine = "string \<Rightarrow> string \<Rightarrow> nat \<Rightarrow> (nat \<times> nat \<times> RegexMatchGroup list) option"

text \<open>
  Modelled from the spec: \<open>RegexMatcher.matchAll\<close>, called by
  \<open>RegexPatternFinder.applyInDocument\<close>, is not among the sources. The spec asks for "every
  non-overlapping match of the pattern against the document's full text, in left-to-right
  order", and that "the implementation must always advance the scan position past a
  zero-width match" ("always advance by at least one code unit"). The scan starts at
  offset 0, resumes at the end of each match, one code unit further when the match is
  empty, and stops when the engine finds nothing or the position has passed the end of the
  text.
\<close>

function scanFrom :: "RegexEngine \<Rightarrow> string \<Rightarrow> string \<Rightarrow> nat \<Rightarrow> RegexMatch list" where
  "scanFrom engine pattern text position =
     (if length text < position then []
      else case engine pattern text position of
             None \<Rightarrow> []
           | Some (distance, len, gs) \<Rightarrow>
               \<lparr>startOffset = position + distance,
                endOffset = position + distance + len,
                groups = gs\<rparr>
               # scanFrom engine pattern text
                   (if len = 0 then position + distance + 1 else position + distance + len))"
  by pat_completeness auto
termination
  by (relation "measure (\<lambda>(engine, pattern, text, position). Suc (length text) - position)") auto

declare scanFrom.simps [simp del]

definition RegexMatcher_matchAll :: "RegexEngine \<Rightarrow> string \<Rightarrow> string \<Rightarrow> RegexMatch list" where
  "RegexMatcher_matchAll engine pattern text = scanFrom engine pattern text 0"

text \<open>
  One match follows another when it starts after the start of the other and not before
  its end.
\<close>

definition follows :: "RegexMatch \<Rightarrow> RegexMatch \<Rightarrow> bool" where
  "follows earlier later \<longleftrightarrow>
     startOffset earlier < startOffset later \<and> endOffset earlier \<le> startOffset later"

section \<open>The regular expression pattern finder\<close>

text \<open>
  The object held in the field \<open>regexMatcher\<close>: its pattern and its method \<open>matchAll\<close>, a
  function of the text.
\<close>

record 'match RegexMatcher =
  pattern :: string
  matchAll :: "string \<Rightarrow> 'match list"

record 'match RegexPatternFinder =
  regexMatcher :: "'match RegexMatcher"

text \<open>
  Modelled from the spec: \<open>new RegexMatcher(pattern)\<close>, of a class that is not among the
  sources: the matcher whose \<open>matchAll\<close> is the scan modelled above, over the engine of the
  platform. The constructor of \<open>RegexPatternFinder\<close> stores it:
  \<open>this.regexMatcher = new RegexMatcher(pattern)\<close>.
\<close>

definition RegexMatcher_new :: "RegexEngine \<Rightarrow> string \<Rightarrow> RegexMatch RegexMatcher" where
  "RegexMatcher_new engine p = \<lparr>pattern = p, matchAll = RegexMatcher_matchAll engine p\<rparr>"

definition RegexPatternFinder_new :: "RegexEngine \<Rightarrow> string \<Rightarrow> RegexMatch RegexPatternFinder" where
  "RegexPatternFinder_new engine p = \<lparr>regexMatcher = RegexMatcher_new engine p\<rparr>"

text \<open>
  \<open>applyInDocument(document)\<close>. \<open>TextualPattern.fromRegexMatch\<close> is not among the sources: a
  parameter. The second component of the result is the log of the calls of
  \<open>regexMatcher.matchAll\<close> made during the call: the texts it was given, in order.
\<close>

definition RegexPatternFinder_applyInDocument ::
  "'match RegexPatternFinder \<Rightarrow> ('match \<Rightarrow> 'parser Document \<Rightarrow> 'textualPattern) \<Rightarrow>
   'parser Document \<Rightarrow> 'textualPattern list \<times> string list" where
  "RegexPatternFinder_applyInDocument this fromRegexMatch document =
     (if Document_isEmpty document then ([], [])
      else (map (\<lambda>match. fromRegexMatch match document)
              (matchAll (regexMatcher this) (content document)),
            [content document]))"

section \<open>The regular expression pattern template\<close>

type_synonym TemplateSlotKey = string

text \<open>
  A \<open>TextualTemplateSlot\<close> holds the five arguments of its constructor (the class is not
  among the sources).
\<close>

record ('document, 'valuatorProvider) TextualTemplateSlot =
  slotValue :: string
  slotRange :: Range
  slotDocument :: 'document
  slotKey :: TemplateSlotKey
  slotValuatorProvider :: 'valuatorProvider

text \<open>
  An element of the list returned by \<open>provideFragmentsWithMatchesForDocument\<close>. Fragments
  are objects, and a JavaScript \<open>Map\<close> compares object keys by identity: the type
  \<open>'fragment\<close> is the type of these identities.
\<close>

record 'fragment FragmentWithMatch =
  fragment :: 'fragment
  match :: RegexMatch

text \<open>
  The \<open>Map\<close> objects live in a store, since the template mutates them through references.
  \<open>fragmentMaps\<close> holds the maps from fragments to (references to) slot maps, \<open>slotMaps\<close>
  the maps from slot keys to slots; \<open>nextRef\<close> is the reference that the next \<open>new Map()\<close>
  of slots returns.
\<close>

type_synonym ref = nat

record ('fragment, 'document, 'valuatorProvider) Heap =
  fragmentMaps :: "ref \<Rightarrow> ('fragment \<rightharpoonup> ref)"
  slotMaps :: "ref \<Rightarrow> (TemplateSlotKey \<rightharpoonup> ('document, 'valuatorProvider) TextualTemplateSlot)"
  nextRef :: ref

text \<open>
  The fields of a \<open>RegexPatternTemplate\<close>. \<open>regexPatternFinder\<close> stands for the method
  \<open>regexPatternFinder.provideFragmentsWithMatchesForDocument\<close>, which is not among the
  sources; \<open>slotSpecification\<close> is the list that \<open>Object.entries\<close> returns for the record
  of valuator providers; \<open>fragmentsToKeysToSlots\<close> is the reference to the map that the
  base class \<open>Template\<close> holds.
\<close>

record ('fragment, 'document, 'valuatorProvider) RegexPatternTemplate =
  regexPatternFinder :: "'document \<Rightarrow> 'fragment FragmentWithMatch list"
  slotSpecification :: "(TemplateSlotKey \<times> 'valuatorProvider) list"
  fragmentsToKeysToSlots :: ref

text \<open>\<open>new Map()\<close> for the slots of one fragment: a fresh reference to an empty map.\<close>

definition Map_new ::
  "('fragment, 'document, 'valuatorProvider) Heap \<Rightarrow>
   ref \<times> ('fragment, 'document, 'valuatorProvider) Heap" where
  "Map_new h =
     (nextRef h, h\<lparr>slotMaps := (slotMaps h)(nextRef h := Map.empty), nextRef := Suc (nextRef h)\<rparr>)"

text \<open>\<open>this.fragmentsToKeysToSlots.clear()\<close>: the object keeps its reference and loses its entries.\<close>

definition FragmentMap_clear ::
  "ref \<Rightarrow> ('fragment, 'document, 'valuatorProvider) Heap \<Rightarrow>
   ('fragment, 'document, 'valuatorProvider) Heap" where
  "FragmentMap_clear m h = h\<lparr>fragmentMaps := (fragmentMaps h)(m := Map.empty)\<rparr>"

text \<open>\<open>this.fragmentsToKeysToSlots.set(fragment, keysToSlots)\<close>\<close>

definition FragmentMap_set ::
  "ref \<Rightarrow> 'fragment \<Rightarrow> ref \<Rightarrow> ('fragment, 'document, 'valuatorProvider) Heap \<Rightarrow>
   ('fragment, 'document, 'valuatorProvider) Heap" where
  "FragmentMap_set m f keysToSlots h =
     h\<lparr>fragmentMaps := (fragmentMaps h)(m := (fragmentMaps h m)(f \<mapsto> keysToSlots))\<rparr>"

text \<open>\<open>keysToSlots.set(slotKey, slot)\<close>\<close>

definition SlotMap_set ::
  "ref \<Rightarrow> TemplateSlotKey \<Rightarrow> ('document, 'valuatorProvider) TextualTemplateSlot \<Rightarrow>
   ('fragment, 'document, 'valuatorProvider) Heap \<Rightarrow>
   ('fragment, 'document, 'valuatorProvider) Heap" where
  "SlotMap_set keysToSlots k slot h =
     h\<lparr>slotMaps := (slotMaps h)(keysToSlots := (slotMaps h keysToSlots)(k \<mapsto> slot))\<rparr>"

text \<open>
  The inner loop of \<open>provideFragmentsForDocument\<close>, over the entries of the slot
  specification: the first group of the match named as the slot key, when there is one,
  gives a slot stored under that key. A group found is an object, which is truthy.
\<close>

fun createSlots ::
  "'document \<Rightarrow> RegexMatch \<Rightarrow> ref \<Rightarrow> (TemplateSlotKey \<times> 'valuatorProvider) list \<Rightarrow>
   ('fragment, 'document, 'valuatorProvider) Heap \<Rightarrow>
   ('fragment, 'document, 'valuatorProvider) Heap" where
  "createSlots document m keysToSlots [] h = h"
| "createSlots document m keysToSlots ((key, valuatorProvider) # entries) h =
     createSlots document m keysToSlots entries
       (case find (\<lambda>group. name group = key) (groups m) of
          None \<Rightarrow> h
        | Some matchingRegexGroup \<Rightarrow>
            SlotMap_set keysToSlots key
              \<lparr>slotValue = value' matchingRegexGroup,
               slotRange = range' matchingRegexGroup,
               slotDocument = document,
               slotKey = key,
               slotValuatorProvider = valuatorProvider\<rparr> h)"

text \<open>
  The outer loop, over the fragments with their matches: a new map of slots, stored under
  the fragment, then filled.
\<close>

fun mapFragmentsToSlots ::
  "ref \<Rightarrow> 'document \<Rightarrow> (TemplateSlotKey \<times> 'valuatorProvider) list \<Rightarrow>
   'fragment FragmentWithMatch list \<Rightarrow>
   ('fragment, 'document, 'valuatorProvider) Heap \<Rightarrow>
   ('fragment, 'document, 'valuatorProvider) Heap" where
  "mapFragmentsToSlots m document specification [] h = h"
| "mapFragmentsToSlots m document specification (fragmentWithMatch # rest) h =
     (case Map_new h of
        (keysToSlots, h1) \<Rightarrow>
          mapFragmentsToSlots m document specification rest
            (createSlots document (match fragmentWithMatch) keysToSlots specification
               (FragmentMap_set m (fragment fragmentWithMatch) keysToSlots h1)))"

text \<open>
  \<open>provideFragmentsForDocument(document)\<close>: the fragments returned, the template (no field
  of which is assigned) and the store. The function is \<open>async\<close> but awaits nothing: its
  body runs from its first statement to its last in one turn.
\<close>

definition provideFragmentsForDocument ::
  "('fragment, 'document, 'valuatorProvider) RegexPatternTemplate \<Rightarrow> 'document \<Rightarrow>
   ('fragment, 'document, 'valuatorProvider) Heap \<Rightarrow>
   'fragment list \<times> ('fragment, 'document, 'valuatorProvider) RegexPatternTemplate
     \<times> ('fragment, 'document, 'valuatorProvider) Heap" where
  "provideFragmentsForDocument this document h =
     (let fragmentsWithMatches = regexPatternFinder this document
      in (map fragment fragmentsWithMatches,
          this,
          mapFragmentsToSlots (fragmentsToKeysToSlots this) document (slotSpecification this)
            fragmentsWithMatches
            (FragmentMap_clear (fragmentsToKeysToSlots this) h)))"

section \<open>Syntax trees and the structural pattern finder\<close>






section \<open>An example template\<close>

text \<open>
  A template whose finder returns two fragments, 0 and 1: the match of the first has one
  named group, \<open>num\<close>, the match of the second has none. The slot specification declares
  the keys \<open>num\<close> and \<open>unit\<close>. In the store, the map of the template (at the reference 0)
  holds the fragment 7 of an earlier pass, and the next free reference is 1.
\<close>

definition example_finder :: "string \<Rightarrow> nat FragmentWithMatch list" where
  "example_finder document =
     [\<lparr>fragment = 0,
       match = \<lparr>startOffset = 7, endOffset = 11,
                groups = [\<lparr>name = ''num'', value' = ''10'',
                           range' = \<lparr>start = \<lparr>row = 0, column = 7\<rparr>,
                                     end' = \<lparr>row = 0, column = 9\<rparr>\<rparr>\<rparr>]\<rparr>\<rparr>,
      \<lparr>fragment = 1,
       match = \<lparr>startOffset = 21, endOffset = 25, groups = []\<rparr>\<rparr>]"

definition example_template :: "(nat, string, unit) RegexPatternTemplate" where
  "example_template =
     \<lparr>regexPatternFinder = example_finder,
      slotSpecification = [(''num'', ()), (''unit'', ())],
      fragmentsToKeysToSlots = 0\<rparr>"

definition example_heap :: "(nat, string, unit) Heap" where
  "example_heap =
     \<lparr>fragmentMaps = (\<lambda>m. Map.empty)(0 := [7 \<mapsto> 0]),
      slotMaps = (\<lambda>r. Map.empty),
      nextRef = 1\<rparr>"

section \<open>An example syntax tree\<close>







section \<open>Ranges: sorted construction and emptiness\<close>



lemma Position_isEqualTo_iff: "Position_isEqualTo p q \<longleftrightarrow> p = q"
  by (auto simp: Position_isEqualTo_def intro: Position.equality)


text \<open>
  C9: \<open>Range.fromSinglePosition\<close> builds the range that starts and ends at the given position,
  that range is empty, and a range is empty exactly when its start equals its end.
\<close>

theorem Range_isEmpty_iff_start_eq_end:
  "start (Range_fromSinglePosition p) = p
   \<and> end' (Range_fromSinglePosition p) = p
   \<and> Range_isEmpty (Range_fromSinglePosition p)
   \<and> (Range_isEmpty r \<longleftrightarrow> start r = end' r)"
  by (simp add: Range_fromSinglePosition_def Range_isEmpty_def Position_isEqualTo_iff)

section \<open>The language registry\<close>

lemma find_Some_first_match:
  "find P xs = Some x \<Longrightarrow> x \<in> set xs \<and> P x"
  by (induction xs) (auto split: if_splits)

text \<open>
  C7: \<open>getLanguageWithId\<close> returns a language of the table whose identifier is the one asked
  for when there is one, and nothing when no language of the table has that identifier; it
  never returns a language with another identifier.
\<close>

theorem getLanguageWithId_lookup:
  "(case getLanguageWithId supportedLanguages i of
      Some found \<Rightarrow> found \<in> set supportedLanguages \<and> id' found = i
    | None \<Rightarrow> \<forall>l \<in> set supportedLanguages. id' l \<noteq> i)"
proof (cases "getLanguageWithId supportedLanguages i")
  case None
  then have "\<forall>l \<in> set supportedLanguages. id' l \<noteq> i"
    by (simp add: getLanguageWithId_def find_None_iff)
  with None show ?thesis by simp
next
  case (Some found)
  then have "found \<in> set supportedLanguages \<and> id' found = i"
    unfolding getLanguageWithId_def by (rule find_Some_first_match)
  with Some show ?thesis by simp
qed

theorem getLanguageWithId_lookup_witness:
  "getLanguageWithId [PYTHON_LANGUAGE ()] ''python'' = Some (PYTHON_LANGUAGE ())
   \<and> getLanguageWithId [PYTHON_LANGUAGE ()] ''cobol'' = None"
  using getLanguageWithId_lookup [of "[PYTHON_LANGUAGE ()]" "''python''"]
    getLanguageWithId_lookup [of "[PYTHON_LANGUAGE ()]" "''cobol''"]
  by (simp add: getLanguageWithId_def PYTHON_LANGUAGE_def)

section \<open>The slots of the fragments of a template\<close>

lemma createSlots_nextRef: "nextRef (createSlots d m r spec h) = nextRef h"
  by (induction spec arbitrary: h) (auto simp: SlotMap_set_def split: option.splits)

lemma createSlots_fragmentMaps: "fragmentMaps (createSlots d m r spec h) = fragmentMaps h"
  by (induction spec arbitrary: h) (auto simp: SlotMap_set_def split: option.splits)

lemma createSlots_other: "r' \<noteq> r \<Longrightarrow> slotMaps (createSlots d m r spec h) r' = slotMaps h r'"
  by (induction spec arbitrary: h) (auto simp: SlotMap_set_def split: option.splits)

lemma SlotMap_set_dom:
  "dom (slotMaps (SlotMap_set r k slot h) r) = insert k (dom (slotMaps h r))"
  by (simp add: SlotMap_set_def)

lemma createSlots_dom:
  "dom (slotMaps (createSlots d m r spec h) r) =
     dom (slotMaps h r) \<union> {k \<in> fst ` set spec. \<exists>g \<in> set (groups m). name g = k}"
proof (induction spec arbitrary: h)
  case Nil
  then show ?case by simp
next
  case (Cons e spec)
  obtain k vp where e: "e = (k, vp)" by (cases e)
  let ?declared = "{k \<in> fst ` set spec. \<exists>g \<in> set (groups m). name g = k}"
  show ?case
  proof (cases "find (\<lambda>group. name group = k) (groups m)")
    case None
    then have no: "\<not> (\<exists>g \<in> set (groups m). name g = k)"
      by (simp add: find_None_iff)
    from None e have "createSlots d m r (e # spec) h = createSlots d m r spec h"
      by simp
    then have "dom (slotMaps (createSlots d m r (e # spec) h) r) = dom (slotMaps h r) \<union> ?declared"
      by (simp add: Cons.IH)
    with no e show ?thesis by auto
  next
    case (Some g)
    then have yes: "\<exists>g \<in> set (groups m). name g = k"
      using find_Some_first_match by fastforce
    let ?slot = "\<lparr>slotValue = value' g, slotRange = range' g, slotDocument = d,
                  slotKey = k, slotValuatorProvider = vp\<rparr>"
    from Some e have "createSlots d m r (e # spec) h = createSlots d m r spec (SlotMap_set r k ?slot h)"
      by simp
    then have "dom (slotMaps (createSlots d m r (e # spec) h) r) =
        insert k (dom (slotMaps h r)) \<union> ?declared"
      by (simp add: Cons.IH SlotMap_set_dom)
    with yes e show ?thesis by auto
  qed
qed

lemma mapFragmentsToSlots_nextRef:
  "nextRef (mapFragmentsToSlots m d spec fws h) = nextRef h + length fws"
  by (induction fws arbitrary: h)
     (auto simp: Map_new_def FragmentMap_set_def createSlots_nextRef)

lemma mapFragmentsToSlots_other_fragmentMaps:
  "m' \<noteq> m \<Longrightarrow> fragmentMaps (mapFragmentsToSlots m d spec fws h) m' = fragmentMaps h m'"
  by (induction fws arbitrary: h)
     (auto simp: Map_new_def FragmentMap_set_def createSlots_fragmentMaps)

lemma mapFragmentsToSlots_older_slotMaps:
  "r < nextRef h \<Longrightarrow> slotMaps (mapFragmentsToSlots m d spec fws h) r = slotMaps h r"
proof (induction fws arbitrary: h)
  case Nil
  then show ?case by simp
next
  case (Cons fm fws)
  let ?h1 = "snd (Map_new h)"
  let ?h2 = "createSlots d (match fm) (nextRef h) spec
               (FragmentMap_set m (fragment fm) (nextRef h) ?h1)"
  have step: "mapFragmentsToSlots m d spec (fm # fws) h = mapFragmentsToSlots m d spec fws ?h2"
    by (simp add: Map_new_def)
  have "nextRef ?h2 = Suc (nextRef h)"
    by (simp add: createSlots_nextRef FragmentMap_set_def Map_new_def)
  with Cons.prems have "r < nextRef ?h2" by simp
  then have "slotMaps (mapFragmentsToSlots m d spec fws ?h2) r = slotMaps ?h2 r"
    by (rule Cons.IH)
  also from Cons.prems have "slotMaps ?h2 r = slotMaps h r"
    by (simp add: createSlots_other FragmentMap_set_def Map_new_def)
  finally show ?case using step by simp
qed

lemma mapFragmentsToSlots_dom:
  "dom (fragmentMaps (mapFragmentsToSlots m d spec fws h) m) =
     dom (fragmentMaps h m) \<union> fragment ` set fws"
  by (induction fws arbitrary: h)
     (auto simp: Map_new_def FragmentMap_set_def createSlots_fragmentMaps)

lemma mapFragmentsToSlots_fresh_refs:
  "fragmentMaps (mapFragmentsToSlots m d spec fws h) m f = Some r \<Longrightarrow>
     fragmentMaps h m f = Some r \<or> nextRef h \<le> r"
proof (induction fws arbitrary: h)
  case Nil
  then show ?case by simp
next
  case (Cons x fws)
  let ?h3 = "createSlots d (match x) (nextRef h) spec
               (FragmentMap_set m (fragment x) (nextRef h) (snd (Map_new h)))"
  have step: "mapFragmentsToSlots m d spec (x # fws) h = mapFragmentsToSlots m d spec fws ?h3"
    by (simp add: Map_new_def)
  with Cons.prems have "fragmentMaps (mapFragmentsToSlots m d spec fws ?h3) m f = Some r"
    by simp
  then have "fragmentMaps ?h3 m f = Some r \<or> nextRef ?h3 \<le> r"
    by (rule Cons.IH)
  moreover have "nextRef ?h3 = Suc (nextRef h)"
    by (simp add: createSlots_nextRef FragmentMap_set_def Map_new_def)
  moreover have "fragmentMaps ?h3 m f = (if f = fragment x then Some (nextRef h) else fragmentMaps h m f)"
    by (simp add: createSlots_fragmentMaps FragmentMap_set_def Map_new_def)
  ultimately show ?case by (auto split: if_splits)
qed

lemma mapFragmentsToSlots_absent_fragment:
  "f \<notin> fragment ` set fws \<Longrightarrow>
     fragmentMaps (mapFragmentsToSlots m d spec fws h) m f = fragmentMaps h m f"
  by (induction fws arbitrary: h)
     (auto simp: Map_new_def FragmentMap_set_def createSlots_fragmentMaps)

lemma mapFragmentsToSlots_append:
  "mapFragmentsToSlots m d spec (xs @ ys) h =
     mapFragmentsToSlots m d spec ys (mapFragmentsToSlots m d spec xs h)"
  by (induction xs arbitrary: h) (simp_all add: Map_new_def)

lemma mapFragmentsToSlots_last_entry:
  assumes "fragment fm \<notin> fragment ` set after"
  shows "\<exists>keysToSlots.
           fragmentMaps (mapFragmentsToSlots m d spec (before @ fm # after) h) m (fragment fm)
             = Some keysToSlots
           \<and> dom (slotMaps (mapFragmentsToSlots m d spec (before @ fm # after) h) keysToSlots) =
               {k \<in> fst ` set spec. \<exists>g \<in> set (groups (match fm)). name g = k}"
proof -
  let ?h0 = "mapFragmentsToSlots m d spec before h"
  let ?r = "nextRef ?h0"
  let ?h3 = "createSlots d (match fm) ?r spec
               (FragmentMap_set m (fragment fm) ?r (snd (Map_new ?h0)))"
  let ?final = "mapFragmentsToSlots m d spec after ?h3"
  have final: "mapFragmentsToSlots m d spec (before @ fm # after) h = ?final"
    by (simp add: mapFragmentsToSlots_append Map_new_def)
  have "fragmentMaps ?final m (fragment fm) = fragmentMaps ?h3 m (fragment fm)"
    using assms by (rule mapFragmentsToSlots_absent_fragment)
  also have "\<dots> = Some ?r"
    by (simp add: createSlots_fragmentMaps FragmentMap_set_def)
  finally have entry: "fragmentMaps ?final m (fragment fm) = Some ?r" .
  have "nextRef ?h3 = Suc ?r"
    by (simp add: createSlots_nextRef FragmentMap_set_def Map_new_def)
  then have "slotMaps ?final ?r = slotMaps ?h3 ?r"
    by (intro mapFragmentsToSlots_older_slotMaps) simp
  moreover have "dom (slotMaps ?h3 ?r) =
      {k \<in> fst ` set spec. \<exists>g \<in> set (groups (match fm)). name g = k}"
    by (simp add: createSlots_dom FragmentMap_set_def Map_new_def)
  ultimately have "dom (slotMaps ?final ?r) =
      {k \<in> fst ` set spec. \<exists>g \<in> set (groups (match fm)). name g = k}"
    by simp
  with entry final show ?thesis by simp
qed

lemmas example_defs = example_finder_def example_template_def example_heap_def
  provideFragmentsForDocument_def Map_new_def FragmentMap_set_def FragmentMap_clear_def SlotMap_set_def


section \<open>What a pass of the template leaves in the store\<close>

text \<open>
  C1: after \<open>provideFragmentsForDocument\<close> has run, the map of slots of a fragment holds a
  key exactly when the slot specification declares that key and a group of the fragment's
  match has that name; a declared key with no such group is absent from it. The function is
  total: no branch of the source raises. The match of a fragment is the one listed with
  it; fragments are fresh objects, one per match, and should one be listed more than once,
  its last match is the one that counts, since \<open>Map.set\<close> replaces an entry.
\<close>

theorem provideFragmentsForDocument_slot_keys:
  assumes "provideFragmentsForDocument this document h = (fragments, this', h')"
    and "regexPatternFinder this document = before @ fragmentWithMatch # after"
    and "fragment fragmentWithMatch \<notin> fragment ` set after"
  shows "\<exists>keysToSlots.
           fragmentMaps h' (fragmentsToKeysToSlots this') (fragment fragmentWithMatch)
             = Some keysToSlots
           \<and> (\<forall>key. key \<in> dom (slotMaps h' keysToSlots) \<longleftrightarrow>
                  key \<in> fst ` set (slotSpecification this)
                  \<and> (\<exists>group \<in> set (groups (match fragmentWithMatch)). name group = key))"
proof -
  let ?m = "fragmentsToKeysToSlots this"
  let ?cleared = "FragmentMap_clear ?m h"
  from assms(1) have this': "this' = this"
    and "h' = mapFragmentsToSlots ?m document (slotSpecification this)
                (regexPatternFinder this document) ?cleared"
    by (auto simp: provideFragmentsForDocument_def Let_def)
  with assms(2) have h': "h' = mapFragmentsToSlots ?m document (slotSpecification this)
      (before @ fragmentWithMatch # after) ?cleared"
    by simp
  from mapFragmentsToSlots_last_entry [OF assms(3), of ?m document "slotSpecification this" before ?cleared]
  obtain keysToSlots where
    entry: "fragmentMaps h' ?m (fragment fragmentWithMatch) = Some keysToSlots"
    and keys: "dom (slotMaps h' keysToSlots) =
       {k \<in> fst ` set (slotSpecification this).
          \<exists>g \<in> set (groups (match fragmentWithMatch)). name g = k}"
    unfolding h' by (elim exE conjE)
  from keys have "\<forall>key. key \<in> dom (slotMaps h' keysToSlots) \<longleftrightarrow>
      key \<in> fst ` set (slotSpecification this)
      \<and> (\<exists>group \<in> set (groups (match fragmentWithMatch)). name group = key)"
    by simp
  with entry this' show ?thesis by (intro exI [of _ keysToSlots]) simp
qed

theorem provideFragmentsForDocument_slot_keys_witness:
  "regexPatternFinder example_template ''width: 10px; height: 20px;''
     = [] @ hd (example_finder ''width: 10px; height: 20px;'')
          # tl (example_finder ''width: 10px; height: 20px;'')
   \<and> fragment (hd (example_finder ''width: 10px; height: 20px;''))
       \<notin> fragment ` set (tl (example_finder ''width: 10px; height: 20px;''))
   \<and> fragmentMaps
        (snd (snd (provideFragmentsForDocument example_template ''width: 10px; height: 20px;''
           example_heap))) 0 0 = Some 1
   \<and> dom (slotMaps
        (snd (snd (provideFragmentsForDocument example_template ''width: 10px; height: 20px;''
           example_heap))) 1) = {''num''}"
  using provideFragmentsForDocument_slot_keys
    [of example_template "''width: 10px; height: 20px;''" example_heap
        "fst (provideFragmentsForDocument example_template ''width: 10px; height: 20px;'' example_heap)"
        "fst (snd (provideFragmentsForDocument example_template ''width: 10px; height: 20px;'' example_heap))"
        "snd (snd (provideFragmentsForDocument example_template ''width: 10px; height: 20px;'' example_heap))"
        "[]" "hd (example_finder ''width: 10px; height: 20px;'')"
        "tl (example_finder ''width: 10px; height: 20px;'')"]
  by (simp add: example_defs)

text \<open>
  C10: after \<open>provideFragmentsForDocument\<close> has run, the keys of the map that the field
  \<open>fragmentsToKeysToSlots\<close> refers to are exactly the fragments returned by the call,
  whatever the map held before.
\<close>

theorem fragmentsToKeysToSlots_keys_are_returned_fragments:
  assumes "provideFragmentsForDocument this document h = (fragments, this', h')"
  shows "dom (fragmentMaps h' (fragmentsToKeysToSlots this')) = set fragments"
proof -
  let ?m = "fragmentsToKeysToSlots this"
  from assms have "this' = this"
    and "fragments = map fragment (regexPatternFinder this document)"
    and "h' = mapFragmentsToSlots ?m document (slotSpecification this)
                (regexPatternFinder this document) (FragmentMap_clear ?m h)"
    by (auto simp: provideFragmentsForDocument_def Let_def)
  moreover have "dom (fragmentMaps (FragmentMap_clear ?m h) ?m) = {}"
    by (simp add: FragmentMap_clear_def)
  ultimately show ?thesis by (simp add: mapFragmentsToSlots_dom)
qed

theorem fragmentsToKeysToSlots_keys_are_returned_fragments_witness:
  "fragmentMaps example_heap 0 7 = Some 0
   \<and> fst (provideFragmentsForDocument example_template ''width: 10px; height: 20px;'' example_heap)
       = [0, 1]
   \<and> dom (fragmentMaps
        (snd (snd (provideFragmentsForDocument example_template ''width: 10px; height: 20px;''
           example_heap))) 0) = {0, 1}
   \<and> slotMaps
        (snd (snd (provideFragmentsForDocument example_template ''width: 10px; height: 20px;''
           example_heap))) 2 = Map.empty"
  using fragmentsToKeysToSlots_keys_are_returned_fragments
    [of example_template "''width: 10px; height: 20px;''" example_heap
        "fst (provideFragmentsForDocument example_template ''width: 10px; height: 20px;'' example_heap)"
        "fst (snd (provideFragmentsForDocument example_template ''width: 10px; height: 20px;'' example_heap))"
        "snd (snd (provideFragmentsForDocument example_template ''width: 10px; height: 20px;'' example_heap))"]
  by (simp add: example_defs)

text \<open>
  The claim C6 as the spec states it, that the map object which existed before a pass is
  never mutated in place, fails: in the example the template refers to the same object
  before and after the pass, and the entry of that object for the fragment 7 is gone.
\<close>


theorem previous_mapping_mutated_in_place:
  "fragmentsToKeysToSlots
     (fst (snd (provideFragmentsForDocument example_template ''width: 10px; height: 20px;''
        example_heap))) = fragmentsToKeysToSlots example_template
   \<and> fragmentMaps example_heap (fragmentsToKeysToSlots example_template) 7 = Some 0
   \<and> fragmentMaps
        (snd (snd (provideFragmentsForDocument example_template ''width: 10px; height: 20px;''
           example_heap))) (fragmentsToKeysToSlots example_template) 7 = None"
  by (simp add: example_defs)

text \<open>
  C6, amended: a pass keeps the map object of the template and rebuilds it in place. After
  the pass the template is unchanged, the keys of that same object are the fragments
  returned, every map of slots it refers to was allocated during the pass, no map of slots
  that existed before the pass is changed, and no other map of fragments is.
\<close>

theorem provideFragmentsForDocument_rebuilds_in_place:
  assumes "provideFragmentsForDocument this document h = (fragments, this', h')"
  shows "this' = this
    \<and> dom (fragmentMaps h' (fragmentsToKeysToSlots this)) = set fragments
    \<and> (\<forall>f r. fragmentMaps h' (fragmentsToKeysToSlots this) f = Some r \<longrightarrow> nextRef h \<le> r)
    \<and> (\<forall>r. r < nextRef h \<longrightarrow> slotMaps h' r = slotMaps h r)
    \<and> (\<forall>m. m \<noteq> fragmentsToKeysToSlots this \<longrightarrow> fragmentMaps h' m = fragmentMaps h m)"
proof -
  let ?m = "fragmentsToKeysToSlots this"
  let ?cleared = "FragmentMap_clear ?m h"
  from assms have this': "this' = this"
    and fragments: "fragments = map fragment (regexPatternFinder this document)"
    and h': "h' = mapFragmentsToSlots ?m document (slotSpecification this)
                    (regexPatternFinder this document) ?cleared"
    by (auto simp: provideFragmentsForDocument_def Let_def)
  have cleared: "fragmentMaps ?cleared ?m = Map.empty" "nextRef ?cleared = nextRef h"
    "slotMaps ?cleared = slotMaps h"
    by (simp_all add: FragmentMap_clear_def)
  have keys: "dom (fragmentMaps h' ?m) = set fragments"
    unfolding h' fragments by (simp add: mapFragmentsToSlots_dom cleared)
  have fresh: "nextRef h \<le> r" if "fragmentMaps h' ?m f = Some r" for f r
    using mapFragmentsToSlots_fresh_refs [of ?m document "slotSpecification this"
        "regexPatternFinder this document" ?cleared f r] that
    unfolding h' by (simp add: cleared)
  have older: "slotMaps h' r = slotMaps h r" if "r < nextRef h" for r
    using mapFragmentsToSlots_older_slotMaps [of r ?cleared ?m document "slotSpecification this"
        "regexPatternFinder this document"] that
    unfolding h' by (simp add: cleared)
  have others: "fragmentMaps h' m = fragmentMaps h m" if "m \<noteq> ?m" for m
    using mapFragmentsToSlots_other_fragmentMaps [of m ?m document "slotSpecification this"
        "regexPatternFinder this document" ?cleared] that
    unfolding h' by (simp add: FragmentMap_clear_def)
  from this' keys fresh older others show ?thesis by blast
qed

theorem provideFragmentsForDocument_rebuilds_in_place_witness:
  "fst (snd (provideFragmentsForDocument example_template ''width: 10px; height: 20px;''
      example_heap)) = example_template
   \<and> dom (fragmentMaps
        (snd (snd (provideFragmentsForDocument example_template ''width: 10px; height: 20px;''
           example_heap))) 0) = {0, 1}
   \<and> fragmentMaps
        (snd (snd (provideFragmentsForDocument example_template ''width: 10px; height: 20px;''
           example_heap))) 0 1 = Some 2
   \<and> slotMaps
        (snd (snd (provideFragmentsForDocument example_template ''width: 10px; height: 20px;''
           example_heap))) 0 = slotMaps example_heap 0
   \<and> fragmentMaps
        (snd (snd (provideFragmentsForDocument example_template ''width: 10px; height: 20px;''
           example_heap))) 5 = fragmentMaps example_heap 5"
  using provideFragmentsForDocument_rebuilds_in_place
    [of example_template "''width: 10px; height: 20px;''" example_heap
        "fst (provideFragmentsForDocument example_template ''width: 10px; height: 20px;'' example_heap)"
        "fst (snd (provideFragmentsForDocument example_template ''width: 10px; height: 20px;'' example_heap))"
        "snd (snd (provideFragmentsForDocument example_template ''width: 10px; height: 20px;'' example_heap))"]
  by (simp add: example_defs)

section \<open>The scan of the matcher\<close>

lemma scanFrom_stop:
  "length t < position \<or> engine p t position = None \<Longrightarrow> scanFrom engine p t position = []"
  by (auto simp: scanFrom.simps [of engine p t position])

lemma scanFrom_step:
  assumes "position \<le> length t" and "engine p t position = Some (distance, len, gs)"
  shows "scanFrom engine p t position =
           \<lparr>startOffset = position + distance, endOffset = position + distance + len, groups = gs\<rparr>
           # scanFrom engine p t (if len = 0 then position + distance + 1 else position + distance + len)"
  using assms by (simp add: scanFrom.simps [of engine p t position])

lemma scanFrom_cases:
  obtains (stop) "scanFrom engine p t position = []"
  | (step) distance len gs where "position \<le> length t"
      and "engine p t position = Some (distance, len, gs)"
      and "scanFrom engine p t position =
           \<lparr>startOffset = position + distance, endOffset = position + distance + len, groups = gs\<rparr>
           # scanFrom engine p t (if len = 0 then position + distance + 1 else position + distance + len)"
proof (cases "length t < position \<or> engine p t position = None")
  case True
  then show ?thesis using scanFrom_stop stop by blast
next
  case False
  then obtain distance len gs where "position \<le> length t" "engine p t position = Some (distance, len, gs)"
    by (cases "engine p t position") auto
  then show ?thesis using scanFrom_step step by blast
qed

lemma scanFrom_starts_at_or_after:
  "m \<in> set (scanFrom engine p t position) \<Longrightarrow> position \<le> startOffset m"
proof (induction "Suc (length t) - position" arbitrary: position rule: less_induct)
  case less
  show ?case
  proof (cases engine p t position rule: scanFrom_cases)
    case stop
    with less.prems show ?thesis by simp
  next
    case (step distance len gs)
    let ?next = "if len = 0 then position + distance + 1 else position + distance + len"
    from step(3) less.prems
    consider "startOffset m = position + distance" | "m \<in> set (scanFrom engine p t ?next)"
      by auto
    then show ?thesis
    proof cases
      case 1
      then show ?thesis by simp
    next
      case 2
      from step(1) have "Suc (length t) - ?next < Suc (length t) - position" by auto
      from less.hyps [OF this 2] show ?thesis by (simp split: if_splits)
    qed
  qed
qed

lemma scanFrom_follows:
  "sorted_wrt follows (scanFrom engine p t position)"
proof (induction "Suc (length t) - position" arbitrary: position rule: less_induct)
  case less
  show ?case
  proof (cases engine p t position rule: scanFrom_cases)
    case stop
    then show ?thesis by simp
  next
    case (step distance len gs)
    let ?next = "if len = 0 then position + distance + 1 else position + distance + len"
    let ?first = "\<lparr>startOffset = position + distance, endOffset = position + distance + len, groups = gs\<rparr>"
    from step(1) have "Suc (length t) - ?next < Suc (length t) - position" by auto
    then have "sorted_wrt follows (scanFrom engine p t ?next)" by (rule less.hyps)
    moreover have "follows ?first m" if "m \<in> set (scanFrom engine p t ?next)" for m
      using scanFrom_starts_at_or_after [OF that] by (simp add: follows_def split: if_splits)
    ultimately show ?thesis using step(3) by simp
  qed
qed

lemma scanFrom_length:
  "length (scanFrom engine p t position) \<le> Suc (length t) - position"
proof (induction "Suc (length t) - position" arbitrary: position rule: less_induct)
  case less
  show ?case
  proof (cases engine p t position rule: scanFrom_cases)
    case stop
    then show ?thesis by simp
  next
    case (step distance len gs)
    let ?next = "if len = 0 then position + distance + 1 else position + distance + len"
    from step(1) have smaller: "Suc (length t) - ?next < Suc (length t) - position" by auto
    then have "length (scanFrom engine p t ?next) \<le> Suc (length t) - ?next" by (rule less.hyps)
    with smaller step(3) show ?thesis by simp
  qed
qed

lemma sorted_wrt_follows_distinct:
  "sorted_wrt follows ms \<Longrightarrow> distinct (map startOffset ms)"
  by (induction ms) (auto simp: follows_def)

lemma matchAll_zero_width_everywhere:
  "RegexMatcher_matchAll (\<lambda>p t position. Some (0, 0, [])) ''x*'' ''ab'' =
   [\<lparr>startOffset = 0, endOffset = 0, groups = []\<rparr>,
    \<lparr>startOffset = 1, endOffset = 1, groups = []\<rparr>,
    \<lparr>startOffset = 2, endOffset = 2, groups = []\<rparr>]"
  by (simp add: RegexMatcher_matchAll_def scanFrom.simps)

text \<open>
  C5: for every engine, pattern and text the scan of \<open>matchAll\<close> ends (the function is
  total, by its termination proof, and returns at most one match per scan position, the
  length of the text plus one in all), each match starts after the start of every earlier
  match and not before its end, so that no two matches start at the same offset, also
  when the pattern matches the empty string; the fragments that \<open>applyInDocument\<close>
  returns are the images of these matches, in the same order.
\<close>


theorem matchAll_advances_past_every_match:
  "sorted_wrt follows (RegexMatcher_matchAll engine p text)
   \<and> distinct (map startOffset (RegexMatcher_matchAll engine p text))
   \<and> length (RegexMatcher_matchAll engine p text) \<le> Suc (length text)
   \<and> fst (RegexPatternFinder_applyInDocument (RegexPatternFinder_new engine p) fromRegexMatch document)
       = map (\<lambda>m. fromRegexMatch m document)
           (if content document = [] then [] else RegexMatcher_matchAll engine p (content document))"
proof (intro conjI)
  show sorted: "sorted_wrt follows (RegexMatcher_matchAll engine p text)"
    unfolding RegexMatcher_matchAll_def by (rule scanFrom_follows)
  then show "distinct (map startOffset (RegexMatcher_matchAll engine p text))"
    by (rule sorted_wrt_follows_distinct)
  show "length (RegexMatcher_matchAll engine p text) \<le> Suc (length text)"
    using scanFrom_length [of engine p "text" 0] by (simp add: RegexMatcher_matchAll_def)
  show "fst (RegexPatternFinder_applyInDocument (RegexPatternFinder_new engine p) fromRegexMatch document)
       = map (\<lambda>m. fromRegexMatch m document)
           (if content document = [] then [] else RegexMatcher_matchAll engine p (content document))"
    by (simp add: RegexPatternFinder_applyInDocument_def RegexPatternFinder_new_def
        RegexMatcher_new_def Document_isEmpty_def)
qed

section \<open>The pattern finder on an empty document\<close>

lemma applyInDocument_nonempty_document:
  "content document \<noteq> [] \<Longrightarrow>
     RegexPatternFinder_applyInDocument this fromRegexMatch document =
       (map (\<lambda>m. fromRegexMatch m document) (matchAll (regexMatcher this) (content document)),
        [content document])"
  by (simp add: RegexPatternFinder_applyInDocument_def Document_isEmpty_def)

text \<open>
  C3: for a document whose content is empty, \<open>applyInDocument\<close> returns the empty list
  and calls \<open>regexMatcher.matchAll\<close> not once: the log of its calls is empty.
\<close>

theorem applyInDocument_empty_document:
  "content document = [] \<Longrightarrow>
     RegexPatternFinder_applyInDocument this fromRegexMatch document = ([], [])"
  by (simp add: RegexPatternFinder_applyInDocument_def Document_isEmpty_def)

theorem applyInDocument_empty_document_witness:
  "content \<lparr>language = PYTHON_LANGUAGE (), content = []\<rparr> = []
   \<and> matchAll \<lparr>pattern = ''x*'', matchAll = (\<lambda>text. [0::nat])\<rparr> [] = [0]
   \<and> RegexPatternFinder_applyInDocument
        \<lparr>regexMatcher = \<lparr>pattern = ''x*'', matchAll = (\<lambda>text. [0::nat])\<rparr>\<rparr>
        (\<lambda>m d. m) \<lparr>language = PYTHON_LANGUAGE (), content = []\<rparr> = ([], [])"
  using applyInDocument_empty_document
    [of "\<lparr>language = PYTHON_LANGUAGE (), content = []\<rparr>"
        "\<lparr>regexMatcher = \<lparr>pattern = ''x*'', matchAll = (\<lambda>text. [0::nat])\<rparr>\<rparr>"
        "\<lambda>m d. m"]
  by simp

section \<open>The structural pattern finder and descent control\<close>










end
